theory Spec2Isabelle
  imports Complex_Main
begin

section \<open>JavaScript numbers\<close>

text \<open>
  The handlers of \<^verbatim>\<open>src/Experience/Experience.jsx\<close> compute on JavaScript numbers. A number
  is modelled as NaN, one of the two infinities, or a finite value, which is a real; the
  two zeros are one value. \<open>js_add\<close> and \<open>js_mul\<close> are the exact sum and product, with
  the rules for NaN and the infinities; \<open>round64\<close> rounds a real to binary64 (to the
  nearest value, ties to the even significand, subnormal below \<open>2 powi - 1022\<close>, an
  infinity from \<open>2 ^ 1024\<close> on), and \<open>js_add64\<close> and \<open>js_mul64\<close> are the operators
  \<^verbatim>\<open>+\<close> and \<^verbatim>\<open>*\<close> as the engine computes them: the exact result, rounded. The comparison
  operators follow ECMAScript: every comparison with NaN is false, and \<^verbatim>\<open>a <= b\<close> is
  "neither is NaN and not \<^verbatim>\<open>b < a\<close>".
\<close>

datatype jsnum = NaN | NegInf | Fin real | PosInf

fun js_add :: "jsnum \<Rightarrow> jsnum \<Rightarrow> jsnum" where
  "js_add NaN b = NaN"
| "js_add a NaN = NaN"
| "js_add (Fin a) (Fin b) = Fin (a + b)"
| "js_add PosInf NegInf = NaN"
| "js_add NegInf PosInf = NaN"
| "js_add PosInf b = PosInf"
| "js_add a PosInf = PosInf"
| "js_add NegInf b = NegInf"
| "js_add a NegInf = NegInf"

fun js_neg :: "jsnum \<Rightarrow> jsnum" where
  "js_neg NaN = NaN"
| "js_neg NegInf = PosInf"
| "js_neg (Fin a) = Fin (- a)"
| "js_neg PosInf = NegInf"

definition js_sub :: "jsnum \<Rightarrow> jsnum \<Rightarrow> jsnum" where
  "js_sub a b = js_add a (js_neg b)"

fun js_sign :: "jsnum \<Rightarrow> real" where
  "js_sign NaN = 0"
| "js_sign NegInf = - 1"
| "js_sign (Fin a) = sgn a"
| "js_sign PosInf = 1"

fun js_mul :: "jsnum \<Rightarrow> jsnum \<Rightarrow> jsnum" where
  "js_mul NaN b = NaN"
| "js_mul a NaN = NaN"
| "js_mul (Fin a) (Fin b) = Fin (a * b)"
| "js_mul a b =
     (if js_sign a * js_sign b = 0 then NaN
      else if 0 < js_sign a * js_sign b then PosInf else NegInf)"

fun js_lt :: "jsnum \<Rightarrow> jsnum \<Rightarrow> bool" where
  "js_lt NaN b = False"
| "js_lt a NaN = False"
| "js_lt (Fin a) (Fin b) = (a < b)"
| "js_lt a NegInf = False"
| "js_lt NegInf b = True"
| "js_lt PosInf b = False"
| "js_lt a PosInf = True"

definition round_half_even :: "real \<Rightarrow> int" where
  "round_half_even q =
     (let f = \<lfloor>q\<rfloor>; d = q - real_of_int f
      in if d < 1 / 2 then f else if 1 / 2 < d then f + 1 else if even f then f else f + 1)"

definition round64 :: "real \<Rightarrow> jsnum" where
  "round64 r =
     (if r = 0 then Fin 0
      else
        (let e = max \<lfloor>log 2 \<bar>r\<bar>\<rfloor> (- 1022) - 52;
             v = real_of_int (round_half_even (r / 2 powi e)) * 2 powi e
         in if 2 ^ 1024 \<le> \<bar>v\<bar> then (if 0 < r then PosInf else NegInf) else Fin v))"

text \<open>A real is a binary64 value when rounding leaves it as it is.\<close>

definition binary64 :: "real \<Rightarrow> bool" where
  "binary64 r = (round64 r = Fin r)"

fun js_round :: "jsnum \<Rightarrow> jsnum" where
  "js_round (Fin r) = round64 r"
| "js_round a = a"

definition js_add64 :: "jsnum \<Rightarrow> jsnum \<Rightarrow> jsnum" where
  "js_add64 a b = js_round (js_add a b)"

definition js_mul64 :: "jsnum \<Rightarrow> jsnum \<Rightarrow> jsnum" where
  "js_mul64 a b = js_round (js_mul a b)"

definition js_gt :: "jsnum \<Rightarrow> jsnum \<Rightarrow> bool" where
  "js_gt a b = js_lt b a"

definition js_le :: "jsnum \<Rightarrow> jsnum \<Rightarrow> bool" where
  "js_le a b = (a \<noteq> NaN \<and> b \<noteq> NaN \<and> \<not> js_lt b a)"

definition js_ge :: "jsnum \<Rightarrow> jsnum \<Rightarrow> bool" where
  "js_ge a b = js_le b a"

text \<open>Strict equality \<^verbatim>\<open>===\<close> on numbers: NaN is not equal to itself.\<close>

definition js_seq :: "jsnum \<Rightarrow> jsnum \<Rightarrow> bool" where
  "js_seq a b = (a \<noteq> NaN \<and> a = b)"

section \<open>Zoom/pan controller: \<^verbatim>\<open>handleDrag\<close> and \<^verbatim>\<open>handleZoom\<close>\<close>

text \<open>
  The two handlers read \<^verbatim>\<open>currentZoomLevel\<close> and write through \<^verbatim>\<open>setCurrentZoomLevel\<close> and
  \<^verbatim>\<open>setPosition\<close>; the model passes the two state variables in a record and returns the
  record after the handler has run. A read of \<^verbatim>\<open>currentZoomLevel\<close> inside a handler sees
  the value from before the call.
\<close>

record xy =
  x :: jsnum
  y :: jsnum

record pan_zoom =
  currentZoomLevel :: jsnum
  position :: xy

record mouse_event =
  movementX :: jsnum
  movementY :: jsnum

definition handleDrag :: "mouse_event \<Rightarrow> pan_zoom \<Rightarrow> pan_zoom" where
  "handleDrag e s =
     (let panSpeedFactor = Fin (5 / 2);
          panSpeedFactor = (if js_lt (currentZoomLevel s) (Fin 5) then Fin 3 else panSpeedFactor);
          deltaX = js_mul64 (movementX e) panSpeedFactor;
          deltaY = js_mul64 (movementY e) panSpeedFactor
      in s\<lparr>position := \<lparr>x = js_add64 (x (position s)) deltaX,
                         y = js_add64 (y (position s)) deltaY\<rparr>\<rparr>)"

definition minZoomLevel :: jsnum where
  "minZoomLevel = Fin 15"

definition maxZoomLevel :: jsnum where
  "maxZoomLevel = Fin 1"

definition origin :: xy where
  "origin = \<lparr>x = Fin 0, y = Fin 0\<rparr>"

text \<open>
  The three branches of \<^verbatim>\<open>handleZoom\<close> are an \<^verbatim>\<open>if\<close>, an \<^verbatim>\<open>else if\<close> and a second
  \<^verbatim>\<open>else if\<close> with no final \<^verbatim>\<open>else\<close>: a candidate that passes none of the three tests
  (NaN) changes nothing. The last test of the handler reads the level from before the call.
\<close>

definition handleZoom :: "jsnum \<Rightarrow> pan_zoom \<Rightarrow> pan_zoom" where
  "handleZoom delta s =
     (let newZoomLevel = js_add64 (currentZoomLevel s) delta;
          s1 = (if js_ge newZoomLevel maxZoomLevel \<and> js_le newZoomLevel minZoomLevel then
                  (let s' = s\<lparr>currentZoomLevel := newZoomLevel\<rparr>
                   in if js_seq newZoomLevel minZoomLevel then s'\<lparr>position := origin\<rparr> else s')
                else if js_lt newZoomLevel maxZoomLevel then
                  s\<lparr>currentZoomLevel := maxZoomLevel\<rparr>
                else if js_gt newZoomLevel minZoomLevel then
                  s\<lparr>currentZoomLevel := minZoomLevel, position := origin\<rparr>
                else s)
      in if js_seq (currentZoomLevel s) minZoomLevel then s1\<lparr>position := origin\<rparr> else s1)"

section \<open>Selection and popup state: the handlers of \<^verbatim>\<open>Experience\<close>\<close>

text \<open>
  The catalog \<^verbatim>\<open>imagesData\<close> is imported from the data file \<^verbatim>\<open>Service/images.json\<close>;
  every handler takes it as a parameter. A record of the catalog
  has the fields \<^verbatim>\<open>id\<close>, \<^verbatim>\<open>path\<close>, \<^verbatim>\<open>position\<close>, \<^verbatim>\<open>title\<close> and \<^verbatim>\<open>description\<close>
  (\<open>id_img\<close> and \<open>position_img\<close> here); the type of its ids is left open.
\<close>

record 'id image_record =
  id_img :: 'id
  path :: string
  position_img :: "real list"
  title :: string
  description :: string

text \<open>
  \<^verbatim>\<open>Array.prototype.findIndex\<close>: the index of the first element that passes the test,
  \<open>-1\<close> when none does.
\<close>

fun findIndex_from :: "('a \<Rightarrow> bool) \<Rightarrow> 'a list \<Rightarrow> nat \<Rightarrow> jsnum" where
  "findIndex_from P [] k = Fin (- 1)"
| "findIndex_from P (a # as) k = (if P a then Fin (real k) else findIndex_from P as (Suc k))"

definition findIndex :: "('a \<Rightarrow> bool) \<Rightarrow> 'a list \<Rightarrow> jsnum" where
  "findIndex P as = findIndex_from P as 0"

text \<open>
  The remainder operator \<^verbatim>\<open>%\<close>: NaN when the dividend is not finite or the divisor is
  zero or NaN, the dividend when the divisor is infinite, and otherwise
  \<open>a - b * trunc (a / b)\<close>, which has the sign of the dividend.
\<close>

definition js_trunc :: "real \<Rightarrow> int" where
  "js_trunc r = (if 0 \<le> r then \<lfloor>r\<rfloor> else \<lceil>r\<rceil>)"

fun js_rem :: "jsnum \<Rightarrow> jsnum \<Rightarrow> jsnum" where
  "js_rem NaN b = NaN"
| "js_rem a NaN = NaN"
| "js_rem PosInf b = NaN"
| "js_rem NegInf b = NaN"
| "js_rem (Fin a) PosInf = Fin a"
| "js_rem (Fin a) NegInf = Fin a"
| "js_rem (Fin a) (Fin b) = (if b = 0 then NaN else Fin (a - b * real_of_int (js_trunc (a / b))))"

text \<open>
  The state of \<^verbatim>\<open>Experience\<close>: \<^verbatim>\<open>selectedImageIndex\<close> starts as \<^verbatim>\<open>null\<close> (\<open>None\<close>) and
  holds a number afterwards. In arithmetic \<^verbatim>\<open>null\<close> converts to 0. The sums and the
  difference of \<^verbatim>\<open>handleNext\<close> and \<^verbatim>\<open>handlePrevious\<close> are of 1, the length of the array
  and a value the index holds (an index of the array, \<open>-1\<close>, 0 for \<^verbatim>\<open>null\<close>, or NaN):
  on these integers, all below \<open>2 ^ 53\<close>, \<^verbatim>\<open>+\<close> and \<^verbatim>\<open>-\<close> are exact, and the two handlers
  are written with the exact operators; \<^verbatim>\<open>%\<close> is exact on all numbers.
\<close>

record experience =
  selectedImageIndex :: "jsnum option"
  showPopup :: bool
  popupText :: string

definition initial_experience :: experience where
  "initial_experience = \<lparr>selectedImageIndex = None, showPopup = False, popupText = []\<rparr>"

fun toNumber :: "jsnum option \<Rightarrow> jsnum" where
  "toNumber None = Fin 0"
| "toNumber (Some v) = v"

definition handleImageClick ::
  "'id image_record list \<Rightarrow> 'id \<Rightarrow> string \<Rightarrow> real list \<Rightarrow> experience \<Rightarrow> experience" where
  "handleImageClick imagesData ident pth pos s =
     (let index = findIndex (\<lambda>img. id_img img = ident) imagesData
      in s\<lparr>selectedImageIndex := Some index, showPopup := True\<rparr>)"

definition handleClosePopup :: "experience \<Rightarrow> experience" where
  "handleClosePopup s = s\<lparr>showPopup := False\<rparr>"

definition handleNext :: "'id image_record list \<Rightarrow> experience \<Rightarrow> experience" where
  "handleNext imagesData s =
     s\<lparr>selectedImageIndex :=
         Some (js_rem (js_add (toNumber (selectedImageIndex s)) (Fin 1))
                      (Fin (real (length imagesData))))\<rparr>"

definition handlePrevious :: "'id image_record list \<Rightarrow> experience \<Rightarrow> experience" where
  "handlePrevious imagesData s =
     s\<lparr>selectedImageIndex :=
         Some (js_rem (js_add (js_sub (toNumber (selectedImageIndex s)) (Fin 1))
                              (Fin (real (length imagesData))))
                      (Fin (real (length imagesData))))\<rparr>"

text \<open>
  What \<^verbatim>\<open>SceneContent\<close> mounts: the popup when \<^verbatim>\<open>showPopup\<close> holds and the index is not
  \<^verbatim>\<open>null\<close>, on the element \<^verbatim>\<open>imagesData[selectedImageIndex]\<close>. An array read at anything but
  an index of the array gives \<^verbatim>\<open>undefined\<close>, and \<^verbatim>\<open>FixedImagePopup\<close> reads \<^verbatim>\<open>image.path\<close>
  first, which throws a TypeError on \<^verbatim>\<open>undefined\<close>.
\<close>

definition array_get :: "'a list \<Rightarrow> jsnum \<Rightarrow> 'a option" where
  "array_get as v =
     (case v of
        Fin r \<Rightarrow> if 0 \<le> r \<and> r = real_of_int \<lfloor>r\<rfloor> \<and> nat \<lfloor>r\<rfloor> < length as
                 then Some (as ! nat \<lfloor>r\<rfloor>) else None
      | _ \<Rightarrow> None)"

datatype 'a mounted = NoPopup | Popup 'a | TypeError

definition mounted_popup :: "'id image_record list \<Rightarrow> experience \<Rightarrow> 'id image_record mounted" where
  "mounted_popup imagesData s =
     (if showPopup s then
        (case selectedImageIndex s of
           None \<Rightarrow> NoPopup
         | Some i \<Rightarrow> (case array_get imagesData i of None \<Rightarrow> TypeError | Some img \<Rightarrow> Popup img))
      else NoPopup)"

text \<open>A catalog of three images, for the scenarios.\<close>

definition three_images :: "nat image_record list" where
  "three_images =
     [\<lparr>id_img = 1, path = ''a.jpg'', position_img = [0, 0, 0], title = ''a'', description = ''a''\<rparr>,
      \<lparr>id_img = 2, path = ''b.jpg'', position_img = [2, 0, 0], title = ''b'', description = ''b''\<rparr>,
      \<lparr>id_img = 3, path = ''c.jpg'', position_img = [4, 0, 0], title = ''c'', description = ''c''\<rparr>]"

section \<open>Keyboard pan animator: \<^verbatim>\<open>handleKeyDown\<close> and the frame callback of \<^verbatim>\<open>SceneContent\<close>\<close>

text \<open>
  The vectors are those of three.js, on real components. Its methods change the receiver
  in place; the targets are made with \<^verbatim>\<open>clone\<close> and written with \<^verbatim>\<open>copy\<close>, so no two refs
  share a vector and the model works on values: \<^verbatim>\<open>v.add(w)\<close> is \<open>add v w\<close>,
  \<^verbatim>\<open>v.lerp(w, alpha)\<close> moves each component of \<open>v\<close> by \<open>alpha\<close> of its distance to \<open>w\<close>,
  \<^verbatim>\<open>v.setFromMatrixColumn(m, i)\<close> reads three elements of the column-major array of \<open>m\<close>
  from \<open>4 * i\<close> on.
\<close>

datatype vector3 = Vector3 real real real

type_synonym matrix4 = "nat \<Rightarrow> real"

fun add :: "vector3 \<Rightarrow> vector3 \<Rightarrow> vector3" where
  "add (Vector3 a b c) (Vector3 d e f) = Vector3 (a + d) (b + e) (c + f)"

fun multiplyScalar :: "vector3 \<Rightarrow> real \<Rightarrow> vector3" where
  "multiplyScalar (Vector3 a b c) r = Vector3 (a * r) (b * r) (c * r)"

fun lerp :: "vector3 \<Rightarrow> vector3 \<Rightarrow> real \<Rightarrow> vector3" where
  "lerp (Vector3 a b c) (Vector3 d e f) alpha =
     Vector3 (a + (d - a) * alpha) (b + (e - b) * alpha) (c + (f - c) * alpha)"

fun distanceToSquared :: "vector3 \<Rightarrow> vector3 \<Rightarrow> real" where
  "distanceToSquared (Vector3 a b c) (Vector3 d e f) =
     (a - d) * (a - d) + (b - e) * (b - e) + (c - f) * (c - f)"

definition distanceTo :: "vector3 \<Rightarrow> vector3 \<Rightarrow> real" where
  "distanceTo v w = sqrt (distanceToSquared v w)"

definition setFromMatrixColumn :: "matrix4 \<Rightarrow> nat \<Rightarrow> vector3" where
  "setFromMatrixColumn m i = Vector3 (m (i * 4)) (m (i * 4 + 1)) (m (i * 4 + 2))"

text \<open>
  The camera (\<^verbatim>\<open>controlsRef.current.object\<close>) with its position and its matrix; the
  controls with the camera, which may be missing, the look-at target, and \<open>internal\<close>, the
  rest of the \<^verbatim>\<open>MapControls\<close> object, which only its \<^verbatim>\<open>update\<close> method reads and writes.
  \<^verbatim>\<open>update\<close> belongs to the controls library and is a parameter of the frame callback.
  The three refs of \<^verbatim>\<open>SceneContent\<close> and \<^verbatim>\<open>controlsRef\<close> make the state; \<^verbatim>\<open>null\<close> is \<open>None\<close>.
\<close>

record camera =
  position_cam :: vector3
  matrix :: matrix4

record 'i controls =
  object :: "camera option"
  target :: vector3
  internal :: 'i

record 'i scene =
  controlsRef :: "'i controls option"
  targetCameraPositionRef :: "vector3 option"
  targetControlsLookAtRef :: "vector3 option"
  isAnimatingPanRef :: bool

text \<open>
  \<^verbatim>\<open>handleKeyDown\<close> closes over the prop \<^verbatim>\<open>showPopup\<close>, its first parameter here; the second
  is \<^verbatim>\<open>event.key\<close>. The vector \<^verbatim>\<open>panOffset\<close> is written before it is read in every call
  that reads it, and \<open>None\<close> for it is \<^verbatim>\<open>didPan = false\<close>.
\<close>

definition handleKeyDown :: "bool \<Rightarrow> string \<Rightarrow> 'i scene \<Rightarrow> 'i scene" where
  "handleKeyDown showPopup_prop key s =
     (if showPopup_prop then s
      else
        (case controlsRef s of
           None \<Rightarrow> s
         | Some c \<Rightarrow>
             (case object c of
                None \<Rightarrow> s
              | Some currentCamera \<Rightarrow>
                  (let moveDistance = 2 / 10;
                       tpos = (case targetCameraPositionRef s of
                               None \<Rightarrow> position_cam currentCamera | Some v \<Rightarrow> v);
                       tlook = (case targetControlsLookAtRef s of
                               None \<Rightarrow> target c | Some v \<Rightarrow> v);
                       s1 = s\<lparr>targetCameraPositionRef := Some tpos, targetControlsLookAtRef := Some tlook\<rparr>;
                       panOffset =
                         (if key = ''ArrowUp'' then
                            Some (multiplyScalar (setFromMatrixColumn (matrix currentCamera) 1) moveDistance)
                          else if key = ''ArrowDown'' then
                            Some (multiplyScalar (setFromMatrixColumn (matrix currentCamera) 1) (- moveDistance))
                          else if key = ''ArrowLeft'' then
                            Some (multiplyScalar (setFromMatrixColumn (matrix currentCamera) 0) (- moveDistance))
                          else if key = ''ArrowRight'' then
                            Some (multiplyScalar (setFromMatrixColumn (matrix currentCamera) 0) moveDistance)
                          else None)
                   in (case panOffset of
                         None \<Rightarrow> s1
                       | Some off \<Rightarrow>
                           s1\<lparr>targetCameraPositionRef := Some (add tpos off),
                              targetControlsLookAtRef := Some (add tlook off),
                              isAnimatingPanRef := True\<rparr>)))))"

text \<open>The two \<^verbatim>\<open>lerp\<close> calls of the frame callback; the camera's only when there is one.\<close>

definition lerp_controls :: "'i controls \<Rightarrow> vector3 \<Rightarrow> vector3 \<Rightarrow> real \<Rightarrow> 'i controls" where
  "lerp_controls c tpos tlook smoothingFactor =
     (let c1 = (case object c of
                  None \<Rightarrow> c
                | Some cam \<Rightarrow>
                    c\<lparr>object := Some (cam\<lparr>position_cam := lerp (position_cam cam) tpos smoothingFactor\<rparr>)\<rparr>)
      in c1\<lparr>target := lerp (target c1) tlook smoothingFactor\<rparr>)"

definition useFrame_pan :: "('i controls \<Rightarrow> 'i controls) \<Rightarrow> 'i scene \<Rightarrow> 'i scene" where
  "useFrame_pan update s =
     (if isAnimatingPanRef s then
        (case controlsRef s of
           None \<Rightarrow> s
         | Some c \<Rightarrow>
             (case targetCameraPositionRef s of
                None \<Rightarrow> s
              | Some tpos \<Rightarrow>
                  (case targetControlsLookAtRef s of
                     None \<Rightarrow> s
                   | Some tlook \<Rightarrow>
                       (let smoothingFactor = 1 / 10;
                            distanceThreshold = 1 / 100;
                            c3 = update (lerp_controls c tpos tlook smoothingFactor)
                        in (case object c3 of
                              None \<Rightarrow> s\<lparr>controlsRef := Some c3\<rparr>
                            | Some cam \<Rightarrow>
                                if distanceTo (position_cam cam) tpos < distanceThreshold
                                   \<and> distanceTo (target c3) tlook < distanceThreshold
                                then s\<lparr>controlsRef :=
                                         Some (c3\<lparr>object := Some (cam\<lparr>position_cam := tpos\<rparr>),
                                                  target := tlook\<rparr>),
                                       isAnimatingPanRef := False\<rparr>
                                else s\<lparr>controlsRef := Some c3\<rparr>)))))
      else s)"

text \<open>
  Two scenes for the scenarios: one at rest, before any key press, and one that is
  animating with both targets 0.005 away.
\<close>

definition scene_at_rest :: "unit scene" where
  "scene_at_rest =
     \<lparr>controlsRef = Some \<lparr>object = Some \<lparr>position_cam = Vector3 0 0 10,
                                             matrix = (\<lambda>i. if i = 0 \<or> i = 5 \<or> i = 10 then 1 else 0)\<rparr>,
                           target = Vector3 0 0 0, internal = ()\<rparr>,
      targetCameraPositionRef = None,
      targetControlsLookAtRef = None,
      isAnimatingPanRef = False\<rparr>"

definition scene_near_target :: "unit scene" where
  "scene_near_target =
     \<lparr>controlsRef = Some \<lparr>object = Some \<lparr>position_cam = Vector3 0 0 10, matrix = (\<lambda>i. 0)\<rparr>,
                           target = Vector3 0 0 0, internal = ()\<rparr>,
      targetCameraPositionRef = Some (Vector3 (1 / 200) 0 10),
      targetControlsLookAtRef = Some (Vector3 (1 / 200) 0 0),
      isAnimatingPanRef = True\<rparr>"

section \<open>Popup scale-in animation of \<^verbatim>\<open>FixedImagePopup\<close>\<close>

text \<open>
  The effect keeps the local \<^verbatim>\<open>scale\<close> and the id of the requested frame; the component
  keeps the state \<^verbatim>\<open>popupScale\<close>. Here \<open>animationFrame\<close> says whether a call of \<^verbatim>\<open>animate\<close>
  is requested for the next frame. \<open>popup_mount\<close> is the component as mounted,
  \<open>popup_effect\<close> the effect run on mount and on every change of the image (the frame
  requested by the previous run is cancelled, \<^verbatim>\<open>scale\<close> starts at 0.7 again and \<^verbatim>\<open>animate\<close>
  is called once), \<open>popup_frame\<close> one frame of the browser. The frame callback of the
  component only places the rendered group in front of the camera and gives it the size
  \<^verbatim>\<open>popupScale\<close>; it writes none of the three variables.
\<close>

record popup =
  scale :: real
  popupScale :: real
  animationFrame :: bool

definition popup_mount :: popup where
  "popup_mount = \<lparr>scale = 7 / 10, popupScale = 7 / 10, animationFrame = False\<rparr>"

definition animate :: "popup \<Rightarrow> popup" where
  "animate p =
     (let sc = scale p + (1 - scale p) * (15 / 100);
          p1 = p\<lparr>scale := sc, popupScale := sc\<rparr>
      in if \<bar>sc - 1\<bar> > 1 / 100 then p1\<lparr>animationFrame := True\<rparr>
         else p1\<lparr>popupScale := 1, animationFrame := False\<rparr>)"

definition popup_effect :: "popup \<Rightarrow> popup" where
  "popup_effect p = animate (p\<lparr>scale := 7 / 10, animationFrame := False\<rparr>)"

definition popup_frame :: "popup \<Rightarrow> popup" where
  "popup_frame p = (if animationFrame p then animate p else p)"

text \<open>
  The frames of one run of the animation: the states after each requested call of
  \<^verbatim>\<open>animate\<close>, until none is requested. Each call multiplies the distance of \<^verbatim>\<open>scale\<close> to 1
  by 0.85 and requests another only while that distance is above 0.01, so the run ends.
\<close>

function popup_frames :: "popup \<Rightarrow> popup list" where
  "popup_frames p =
     (if animationFrame p then popup_frame p # popup_frames (popup_frame p) else [])"
  by pat_completeness auto
termination
proof (relation "measure (\<lambda>p. if animationFrame p then Suc (nat \<lceil>\<bar>1 - scale p\<bar> * 1000\<rceil>) else 0)")
  show "wf (measure (\<lambda>p. if animationFrame p then Suc (nat \<lceil>\<bar>1 - scale p\<bar> * 1000\<rceil>) else 0))"
    by simp
next
  fix p :: popup
  assume pending: "animationFrame p"
  define a where "a = \<bar>1 - scale p\<bar>"
  have sc: "scale (animate p) = scale p + (1 - scale p) * (15 / 100)"
    by (simp add: animate_def Let_def)
  have dist: "\<bar>1 - scale (animate p)\<bar> = a * (85 / 100)"
  proof -
    have "1 - scale (animate p) = (1 - scale p) * (85 / 100)"
      unfolding sc by argo
    then have "\<bar>1 - scale (animate p)\<bar> = \<bar>(1 - scale p) * (85 / 100)\<bar>"
      by (simp only:)
    also have "\<dots> = \<bar>1 - scale p\<bar> * \<bar>85 / 100\<bar>"
      by (rule abs_mult)
    also have "\<dots> = a * (85 / 100)"
      by (simp add: a_def)
    finally show ?thesis .
  qed
  have "animationFrame (animate p) \<Longrightarrow>
        nat \<lceil>\<bar>1 - scale (animate p)\<bar> * 1000\<rceil> < nat \<lceil>a * 1000\<rceil>"
  proof -
    assume "animationFrame (animate p)"
    then have "\<bar>scale (animate p) - 1\<bar> > 1 / 100"
      by (simp add: animate_def Let_def split: if_splits)
    then have far: "a * (85 / 100) > 1 / 100"
      using dist by (simp add: abs_minus_commute)
    then have "a * (85 / 100) * 1000 \<le> a * 1000 - 1"
      by simp
    also have "\<dots> \<le> real_of_int \<lceil>a * 1000\<rceil> - 1"
      by simp
    finally have "\<lceil>a * (85 / 100) * 1000\<rceil> < \<lceil>a * 1000\<rceil>"
      by (simp only: ceiling_less_iff)
    moreover have "0 < \<lceil>a * 1000\<rceil>"
      using far by simp
    ultimately show ?thesis
      by (simp add: dist)
  qed
  with pending show "(popup_frame p, p)
      \<in> measure (\<lambda>p. if animationFrame p then Suc (nat \<lceil>\<bar>1 - scale p\<bar> * 1000\<rceil>) else 0)"
    by (simp add: popup_frame_def a_def)
qed

declare popup_frames.simps [simp del]

text \<open>
  What holds of the popup between two calls of \<^verbatim>\<open>animate\<close>: the local scale is at most 1,
  and \<^verbatim>\<open>popupScale\<close> is the local scale while a call is requested and 1 afterwards.
\<close>

definition popup_inv :: "popup \<Rightarrow> bool" where
  "popup_inv p = (scale p \<le> 1 \<and> popupScale p = (if animationFrame p then scale p else 1))"

text \<open>
  One whole run of the animation: the popup as mounted, after the effect has called
  \<^verbatim>\<open>animate\<close> once, and after every frame until no further one is requested.
\<close>

definition popup_run :: "popup list" where
  "popup_run = popup_mount # popup_effect popup_mount # popup_frames (popup_effect popup_mount)"

section \<open>Rounding to binary64\<close>

lemma round_half_even_of_int [simp]: "round_half_even (real_of_int m) = m"
  by (simp add: round_half_even_def)

lemma floor_log2_eq:
  assumes "2 powi k \<le> \<bar>r\<bar>" and "\<bar>r\<bar> < 2 powi (k + 1)"
  shows "\<lfloor>log 2 \<bar>r\<bar>\<rfloor> = k"
proof -
  have pos: "0 < \<bar>r\<bar>"
    using assms(1) zero_less_power_int [of "2::real" k] by linarith
  have conv: "(2::real) powr real_of_int j = 2 powi j" for j
    by (rule powr_real_of_int') simp_all
  have "real_of_int k + 1 = real_of_int (k + 1)"
    by simp
  then have "(2::real) powr (real_of_int k + 1) = 2 powi (k + 1)"
    by (simp only: conv)
  with assms conv [of k] have "2 powr real_of_int k \<le> \<bar>r\<bar> \<and> \<bar>r\<bar> < 2 powr (real_of_int k + 1)"
    by (simp only:)
  with pos show ?thesis
    by (simp add: floor_log_eq_powr_iff)
qed

text \<open>
  Rounding a real whose binary exponent \<open>k\<close> is known: the form in which \<open>round64\<close> is
  evaluated on a numeral.
\<close>

lemma round64_eval:
  assumes "2 powi k \<le> \<bar>r\<bar>" and "\<bar>r\<bar> < 2 powi (k + 1)"
  shows "round64 r =
     (let e = max k (- 1022) - 52;
          v = real_of_int (round_half_even (r / 2 powi e)) * 2 powi e
      in if 2 ^ 1024 \<le> \<bar>v\<bar> then (if 0 < r then PosInf else NegInf) else Fin v)"
proof -
  have "(0::real) < 2 powi k"
    by simp
  with assms(1) have "0 < \<bar>r\<bar>"
    by linarith
  then have "r \<noteq> 0"
    by simp
  then show ?thesis
    by (simp only: round64_def floor_log2_eq [OF assms] if_False)
qed

text \<open>Every integer of magnitude below \<open>2 ^ 53\<close> is a binary64 value.\<close>

lemma round64_of_int:
  assumes "\<bar>n\<bar> < 2 ^ 53"
  shows "round64 (real_of_int n) = Fin (real_of_int n)"
proof (cases "n = 0")
  case True
  then show ?thesis
    by (simp add: round64_def)
next
  case False
  define a where "a = \<bar>real_of_int n\<bar>"
  define k where "k = \<lfloor>log 2 a\<rfloor>"
  have a1: "1 \<le> a"
    using False unfolding a_def by (simp flip: of_int_abs)
  have a53: "a < 2 ^ 53"
    using assms unfolding a_def by (simp flip: of_int_abs)
  have "0 \<le> log 2 a"
    using a1 by simp
  then have k0: "0 \<le> k"
    unfolding k_def by simp
  have "log 2 a < 53"
    using a1 a53 by (simp add: log_less_iff)
  then have k52: "k \<le> 52"
    unfolding k_def by (simp add: floor_le_iff)
  define j where "j = nat (52 - k)"
  have e: "max k (- 1022) - 52 = - int j"
    using k0 k52 by (simp add: j_def)
  have p: "(2::real) powi (- int j) = inverse (2 ^ j)"
    by (simp add: power_int_minus)
  have q: "real_of_int n / 2 powi (- int j) = real_of_int (n * 2 ^ j)"
    by (simp add: p divide_inverse)
  have v: "real_of_int (round_half_even (real_of_int n / 2 powi (- int j))) * 2 powi (- int j)
           = real_of_int n"
    by (simp only: q round_half_even_of_int) (simp add: p)
  have small: "\<not> 2 ^ 1024 \<le> a"
  proof -
    have "(2::real) ^ 53 \<le> 2 ^ 1024"
      by (rule power_increasing) simp_all
    with a53 show ?thesis
      by linarith
  qed
  have "real_of_int n \<noteq> 0"
    using False by simp
  then show ?thesis
    using small unfolding round64_def Let_def k_def [symmetric, unfolded a_def] e v a_def
    by (simp only: if_False)
qed

lemma binary64_of_int: "\<bar>n\<bar> < 2 ^ 53 \<Longrightarrow> binary64 (real_of_int n)"
  unfolding binary64_def by (rule round64_of_int)

lemma round64_small_numerals:
  "round64 0 = Fin 0" "round64 10 = Fin 10" "round64 12 = Fin 12" "round64 17 = Fin 17"
  "round64 20 = Fin 20" "round64 22 = Fin 22"
  "round64 (- 1) = Fin (- 1)" "round64 (- 5) = Fin (- 5)" "round64 (- 6) = Fin (- 6)"
  using round64_of_int [of 0] round64_of_int [of 10] round64_of_int [of 12]
    round64_of_int [of 17] round64_of_int [of 20] round64_of_int [of 22]
    round64_of_int [of "- 1"] round64_of_int [of "- 5"] round64_of_int [of "- 6"]
  by simp_all

text \<open>
  Three roundings that change the value: a sum that loses its small term, a product that
  needs 55 bits, and a product beyond the largest finite value.
\<close>

lemma round64_inexact:
  "round64 (2 ^ 60 + 12) = Fin (2 ^ 60)"
  "round64 ((2 ^ 53 - 1) * 3) = Fin 27021597764222972"
  "round64 (2 ^ 1023 * 3) = PosInf"
  by (subst round64_eval [where k = 60], simp_all add: Let_def round_half_even_def)
     (subst round64_eval [where k = 54], simp_all add: Let_def round_half_even_def,
      subst round64_eval [where k = 1024], simp_all add: Let_def round_half_even_def)

lemma js_add64_Fin: "js_add64 (Fin a) (Fin b) = round64 (a + b)"
  by (simp add: js_add64_def)

lemma js_mul64_Fin: "js_mul64 (Fin a) (Fin b) = round64 (a * b)"
  by (simp add: js_mul64_def)

section \<open>Comparisons of finite numbers\<close>

lemma js_le_Fin [simp]: "js_le (Fin a) (Fin b) = (a \<le> b)"
  by (simp add: js_le_def not_less)

lemma js_ge_Fin [simp]: "js_ge (Fin a) (Fin b) = (b \<le> a)"
  by (simp add: js_ge_def)

lemma js_gt_Fin [simp]: "js_gt (Fin a) (Fin b) = (b < a)"
  by (simp add: js_gt_def)

lemma js_seq_Fin [simp]: "js_seq (Fin a) b = (Fin a = b)"
  by (simp add: js_seq_def)

lemma js_seq_minZoomLevel [simp]: "js_seq a minZoomLevel = (a = minZoomLevel)"
  by (auto simp: js_seq_def minZoomLevel_def)

section \<open>Properties of the zoom/pan controller\<close>

text \<open>
  C1. If the zoom level is within the limits before \<^verbatim>\<open>handleZoom(delta)\<close>, that is
  \<^verbatim>\<open>maxZoomLevel <= level <= minZoomLevel\<close> with the limits 1 and 15, it is within them
  after the call, for every number \<^verbatim>\<open>delta\<close>, NaN and the infinities included.
\<close>

theorem handleZoom_level_in_range:
  assumes "js_le maxZoomLevel (currentZoomLevel s)"
    and "js_le (currentZoomLevel s) minZoomLevel"
  shows "js_le maxZoomLevel (currentZoomLevel (handleZoom delta s))
       \<and> js_le (currentZoomLevel (handleZoom delta s)) minZoomLevel"
proof -
  define c where "c = js_add64 (currentZoomLevel s) delta"
  have bounds: "js_le maxZoomLevel maxZoomLevel" "js_le maxZoomLevel minZoomLevel"
    "js_le minZoomLevel minZoomLevel"
    by (simp_all add: maxZoomLevel_def minZoomLevel_def)
  have "js_ge c maxZoomLevel \<Longrightarrow> js_le maxZoomLevel c"
    by (simp add: js_ge_def)
  with assms bounds show ?thesis
    unfolding handleZoom_def Let_def c_def [symmetric]
    by (simp del: js_seq_minZoomLevel)
qed

theorem handleZoom_level_in_range_witness:
  "js_le maxZoomLevel (currentZoomLevel \<lparr>currentZoomLevel = Fin 14, position = \<lparr>x = Fin 7, y = Fin 2\<rparr>\<rparr>)
   \<and> js_le (currentZoomLevel \<lparr>currentZoomLevel = Fin 14, position = \<lparr>x = Fin 7, y = Fin 2\<rparr>\<rparr>) minZoomLevel
   \<and> currentZoomLevel (handleZoom (Fin 3) \<lparr>currentZoomLevel = Fin 14, position = \<lparr>x = Fin 7, y = Fin 2\<rparr>\<rparr>)
       = Fin 15
   \<and> js_le maxZoomLevel
       (currentZoomLevel (handleZoom (Fin 3) \<lparr>currentZoomLevel = Fin 14, position = \<lparr>x = Fin 7, y = Fin 2\<rparr>\<rparr>))
   \<and> js_le
       (currentZoomLevel (handleZoom (Fin 3) \<lparr>currentZoomLevel = Fin 14, position = \<lparr>x = Fin 7, y = Fin 2\<rparr>\<rparr>))
       minZoomLevel"
proof -
  let ?s = "\<lparr>currentZoomLevel = Fin 14, position = \<lparr>x = Fin 7, y = Fin 2\<rparr>\<rparr>"
  have h1: "js_le maxZoomLevel (currentZoomLevel ?s)"
    by (simp add: maxZoomLevel_def)
  have h2: "js_le (currentZoomLevel ?s) minZoomLevel"
    by (simp add: minZoomLevel_def)
  have v: "currentZoomLevel (handleZoom (Fin 3) ?s) = Fin 15"
    by (simp add: handleZoom_def maxZoomLevel_def minZoomLevel_def js_gt_def
        js_add64_Fin round64_small_numerals)
  from h1 h2 v handleZoom_level_in_range [OF h1 h2, of "Fin 3"] show ?thesis
    by simp
qed

text \<open>
  C2. Whenever the zoom level after \<^verbatim>\<open>handleZoom(delta)\<close> is \<^verbatim>\<open>minZoomLevel\<close>, the
  position after the call is \<^verbatim>\<open>{x: 0, y: 0}\<close>: for every state before the call and every
  number \<^verbatim>\<open>delta\<close>.
\<close>

theorem handleZoom_min_centres:
  assumes "currentZoomLevel (handleZoom delta s) = minZoomLevel"
  shows "position (handleZoom delta s) = origin"
proof (cases "currentZoomLevel s = minZoomLevel")
  case True
  then show ?thesis
    by (simp add: handleZoom_def Let_def)
next
  case False
  define c where "c = js_add64 (currentZoomLevel s) delta"
  have "maxZoomLevel \<noteq> minZoomLevel" "\<not> js_gt minZoomLevel minZoomLevel"
    by (simp_all add: maxZoomLevel_def minZoomLevel_def)
  with assms False show ?thesis
    unfolding handleZoom_def Let_def c_def [symmetric]
    by (auto split: if_splits)
qed

theorem handleZoom_min_centres_witness:
  "currentZoomLevel (handleZoom (Fin 3) \<lparr>currentZoomLevel = Fin 14, position = \<lparr>x = Fin 7, y = Fin 2\<rparr>\<rparr>)
     = minZoomLevel
   \<and> position (handleZoom (Fin 3) \<lparr>currentZoomLevel = Fin 14, position = \<lparr>x = Fin 7, y = Fin 2\<rparr>\<rparr>)
     = \<lparr>x = Fin 0, y = Fin 0\<rparr>"
proof -
  let ?s = "\<lparr>currentZoomLevel = Fin 14, position = \<lparr>x = Fin 7, y = Fin 2\<rparr>\<rparr>"
  have h: "currentZoomLevel (handleZoom (Fin 3) ?s) = minZoomLevel"
    by (simp add: handleZoom_def maxZoomLevel_def minZoomLevel_def js_gt_def
        js_add64_Fin round64_small_numerals)
  from h handleZoom_min_centres [OF h] show ?thesis
    by (simp add: origin_def)
qed

text \<open>
  The scenarios of the zoom controller, evaluated: zooming in past the limit from level 5
  by \<open>-6\<close> stores the limit 1 and keeps the position; a NaN delta changes nothing below
  the zoomed-out limit, and at that limit only recentres.
\<close>

lemma handleZoom_clamp_in:
  "handleZoom (Fin (- 6)) \<lparr>currentZoomLevel = Fin 5, position = \<lparr>x = Fin 7, y = Fin 2\<rparr>\<rparr>
     = \<lparr>currentZoomLevel = Fin 1, position = \<lparr>x = Fin 7, y = Fin 2\<rparr>\<rparr>"
  by (simp add: handleZoom_def maxZoomLevel_def minZoomLevel_def js_add64_Fin
      round64_small_numerals)

lemma handleZoom_NaN:
  "handleZoom NaN \<lparr>currentZoomLevel = Fin 5, position = \<lparr>x = Fin 7, y = Fin 2\<rparr>\<rparr>
     = \<lparr>currentZoomLevel = Fin 5, position = \<lparr>x = Fin 7, y = Fin 2\<rparr>\<rparr>"
  "handleZoom NaN \<lparr>currentZoomLevel = Fin 15, position = \<lparr>x = Fin 7, y = Fin 2\<rparr>\<rparr>
     = \<lparr>currentZoomLevel = Fin 15, position = \<lparr>x = Fin 0, y = Fin 0\<rparr>\<rparr>"
  by (simp_all add: handleZoom_def maxZoomLevel_def minZoomLevel_def origin_def
      js_ge_def js_le_def js_gt_def js_add64_def)

text \<open>
  C8, as the code has it. \<^verbatim>\<open>handleDrag\<close> leaves the zoom level alone and sets each axis
  of the position to the sum of its value and \<^verbatim>\<open>movement * multiplier\<close>, the product and
  the sum each rounded to binary64; the multiplier is 3.0 when the zoom level is strictly
  below 5.0 and 2.5 otherwise (a NaN level is not below 5.0). At level 3.0 a drag with
  \<^verbatim>\<open>movementX = 4\<close>, \<^verbatim>\<open>movementY = 0\<close> has the deltas 12 and 0 exactly, and moves a position
  \<open>(a, b)\<close> to \<open>(a + 12, b)\<close> whenever \<open>a + 12\<close> is a binary64 value (\<open>b\<close>, a number of
  the program, is one).
\<close>

theorem handleDrag_adds_rounded_movement:
  "handleDrag e s =
     s\<lparr>position :=
         \<lparr>x = js_add64 (x (position s))
                (js_mul64 (movementX e) (if js_lt (currentZoomLevel s) (Fin 5) then Fin 3 else Fin (5 / 2))),
          y = js_add64 (y (position s))
                (js_mul64 (movementY e) (if js_lt (currentZoomLevel s) (Fin 5) then Fin 3 else Fin (5 / 2)))\<rparr>\<rparr>
   \<and> js_mul64 (Fin 4) (Fin 3) = Fin 12
   \<and> js_mul64 (Fin 0) (Fin 3) = Fin 0
   \<and> (currentZoomLevel s = Fin 3 \<and> position s = \<lparr>x = Fin a, y = Fin b\<rparr>
        \<and> binary64 (a + 12) \<and> binary64 b
        \<longrightarrow> position (handleDrag \<lparr>movementX = Fin 4, movementY = Fin 0\<rparr> s)
            = \<lparr>x = Fin (a + 12), y = Fin b\<rparr>)"
proof (intro conjI impI)
  show "handleDrag e s =
     s\<lparr>position :=
         \<lparr>x = js_add64 (x (position s))
                (js_mul64 (movementX e) (if js_lt (currentZoomLevel s) (Fin 5) then Fin 3 else Fin (5 / 2))),
          y = js_add64 (y (position s))
                (js_mul64 (movementY e) (if js_lt (currentZoomLevel s) (Fin 5) then Fin 3 else Fin (5 / 2)))\<rparr>\<rparr>"
    by (simp add: handleDrag_def Let_def)
  show twelve: "js_mul64 (Fin 4) (Fin 3) = Fin 12"
    by (simp add: js_mul64_Fin round64_small_numerals)
  show zero: "js_mul64 (Fin 0) (Fin 3) = Fin 0"
    by (simp add: js_mul64_Fin round64_small_numerals)
  assume h: "currentZoomLevel s = Fin 3 \<and> position s = \<lparr>x = Fin a, y = Fin b\<rparr>
        \<and> binary64 (a + 12) \<and> binary64 b"
  then have "js_add64 (Fin a) (Fin 12) = Fin (a + 12)" "js_add64 (Fin b) (Fin 0) = Fin b"
    by (simp_all add: js_add64_Fin binary64_def)
  with h twelve zero
  show "position (handleDrag \<lparr>movementX = Fin 4, movementY = Fin 0\<rparr> s)
            = \<lparr>x = Fin (a + 12), y = Fin b\<rparr>"
    by (simp add: handleDrag_def Let_def)
qed

theorem handleDrag_adds_rounded_movement_witness:
  "binary64 (10 + 12) \<and> binary64 (- 1)
   \<and> handleDrag \<lparr>movementX = Fin 4, movementY = Fin 0\<rparr>
       \<lparr>currentZoomLevel = Fin 3, position = \<lparr>x = Fin 10, y = Fin (- 1)\<rparr>\<rparr>
     = \<lparr>currentZoomLevel = Fin 3, position = \<lparr>x = Fin 22, y = Fin (- 1)\<rparr>\<rparr>
   \<and> handleDrag \<lparr>movementX = Fin 4, movementY = Fin (- 2)\<rparr>
       \<lparr>currentZoomLevel = Fin 5, position = \<lparr>x = Fin 10, y = Fin (- 1)\<rparr>\<rparr>
     = \<lparr>currentZoomLevel = Fin 5, position = \<lparr>x = Fin 20, y = Fin (- 6)\<rparr>\<rparr>"
proof -
  have h: "binary64 (10 + 12)" "binary64 (- 1)"
    by (simp_all add: binary64_def round64_small_numerals)
  from h
    handleDrag_adds_rounded_movement
    [of "\<lparr>movementX = Fin 4, movementY = Fin 0\<rparr>"
        "\<lparr>currentZoomLevel = Fin 3, position = \<lparr>x = Fin 10, y = Fin (- 1)\<rparr>\<rparr>" 10 "- 1"]
    handleDrag_adds_rounded_movement
    [of "\<lparr>movementX = Fin 4, movementY = Fin (- 2)\<rparr>"
        "\<lparr>currentZoomLevel = Fin 5, position = \<lparr>x = Fin 10, y = Fin (- 1)\<rparr>\<rparr>" 0 0]
  show ?thesis
    by (simp add: js_add64_Fin js_mul64_Fin round64_small_numerals)
qed

text \<open>
  The claim C8 as it was stated (the position moves by \<^verbatim>\<open>movement * multiplier\<close>, by
  exactly 12 in the scenario) fails where a result is not a binary64 value. At level 3.0
  and \<^verbatim>\<open>movementX = 4\<close> a position with \<open>x = 2 ^ 60\<close> keeps its \<open>x\<close>; at
  \<^verbatim>\<open>movementX = 2 ^ 53 - 1\<close> the position moves from 0 to an even number, one below the
  product; at \<^verbatim>\<open>movementX = 2 ^ 1023\<close> it moves to infinity.
\<close>

theorem handleDrag_rounds_the_movement:
  "position (handleDrag \<lparr>movementX = Fin 4, movementY = Fin 0\<rparr>
       \<lparr>currentZoomLevel = Fin 3, position = \<lparr>x = Fin (2 ^ 60), y = Fin 0\<rparr>\<rparr>)
     = \<lparr>x = Fin (2 ^ 60), y = Fin 0\<rparr>
   \<and> x (position (handleDrag \<lparr>movementX = Fin 4, movementY = Fin 0\<rparr>
       \<lparr>currentZoomLevel = Fin 3, position = \<lparr>x = Fin (2 ^ 60), y = Fin 0\<rparr>\<rparr>))
     \<noteq> Fin (2 ^ 60 + 12)
   \<and> x (position (handleDrag \<lparr>movementX = Fin (2 ^ 53 - 1), movementY = Fin 0\<rparr>
       \<lparr>currentZoomLevel = Fin 3, position = \<lparr>x = Fin 0, y = Fin 0\<rparr>\<rparr>))
     = Fin ((2 ^ 53 - 1) * 3 - 1)
   \<and> x (position (handleDrag \<lparr>movementX = Fin (2 ^ 1023), movementY = Fin 0\<rparr>
       \<lparr>currentZoomLevel = Fin 3, position = \<lparr>x = Fin 0, y = Fin 0\<rparr>\<rparr>))
     = PosInf"
proof -
  have r: "round64 27021597764222972 = Fin 27021597764222972"
    by (subst round64_eval [where k = 54]) (simp_all add: Let_def round_half_even_def)
  have "js_add64 (Fin (2 ^ 60)) (js_mul64 (Fin 4) (Fin 3)) = Fin (2 ^ 60)"
    using round64_inexact(1) by (simp add: js_add64_Fin js_mul64_Fin round64_small_numerals)
  moreover have "js_add64 (Fin 0) (js_mul64 (Fin 0) (Fin 3)) = Fin 0"
    by (simp add: js_add64_Fin js_mul64_Fin round64_small_numerals)
  moreover have "js_add64 (Fin 0) (js_mul64 (Fin (2 ^ 53 - 1)) (Fin 3)) = Fin ((2 ^ 53 - 1) * 3 - 1)"
    using round64_inexact(2) r by (simp add: js_add64_Fin js_mul64_Fin)
  moreover have "js_add64 (Fin 0) (js_mul64 (Fin (2 ^ 1023)) (Fin 3)) = PosInf"
    using round64_inexact(3) by (simp add: js_add64_def js_mul64_def)
  ultimately show ?thesis
    by (simp add: handleDrag_def Let_def)
qed

section \<open>Properties of the selection state\<close>

lemma js_rem_of_nat:
  assumes "0 < n"
  shows "js_rem (Fin (real m)) (Fin (real n)) = Fin (real (m mod n))"
proof -
  have "js_trunc (real m / real n) = int (m div n)"
    by (simp add: js_trunc_def floor_divide_of_nat_eq)
  moreover have "real m - real n * real (m div n) = real (m mod n)"
  proof -
    have "real (n * (m div n) + m mod n) = real m"
      by simp
    then show ?thesis
      by (simp only: of_nat_add of_nat_mult)
  qed
  ultimately show ?thesis
    using assms by simp
qed

lemma handleNext_step:
  assumes "0 < length imagesData" and "selectedImageIndex s = Some (Fin (real i))"
  shows "selectedImageIndex (handleNext imagesData s)
         = Some (Fin (real ((i + 1) mod length imagesData)))"
proof -
  have "js_add (Fin (real i)) (Fin 1) = Fin (real (i + 1))"
    by simp
  with assms show ?thesis
    by (simp only: handleNext_def toNumber.simps js_rem_of_nat) simp
qed

lemma handlePrevious_step:
  assumes "0 < length imagesData" and "i < length imagesData"
    and "selectedImageIndex s = Some (Fin (real i))"
  shows "selectedImageIndex (handlePrevious imagesData s)
         = Some (Fin (real ((i + length imagesData - 1) mod length imagesData)))"
proof -
  have "js_add (js_sub (Fin (real i)) (Fin 1)) (Fin (real (length imagesData)))
        = Fin (real (i + length imagesData - 1))"
  proof -
    have "1 \<le> i + length imagesData"
      using assms(1) by linarith
    then have "real (i + length imagesData - 1) = real (i + length imagesData) - 1"
      by (simp only: of_nat_diff of_nat_1)
    then show ?thesis
      by (simp add: js_sub_def)
  qed
  with assms show ?thesis
    by (simp only: handlePrevious_def toNumber.simps js_rem_of_nat) simp
qed

lemma handleNext_iterated:
  assumes "i < length imagesData" and "selectedImageIndex s = Some (Fin (real i))"
  shows "selectedImageIndex ((handleNext imagesData ^^ k) s)
         = Some (Fin (real ((i + k) mod length imagesData)))"
proof (induction k)
  case 0
  from assms show ?case by simp
next
  case (Suc k)
  have pos: "0 < length imagesData"
    using assms(1) by linarith
  have "selectedImageIndex (handleNext imagesData ((handleNext imagesData ^^ k) s))
        = Some (Fin (real (((i + k) mod length imagesData + 1) mod length imagesData)))"
    using pos Suc.IH by (rule handleNext_step)
  moreover have "((i + k) mod length imagesData + 1) mod length imagesData
                 = (i + Suc k) mod length imagesData"
    by (simp add: mod_Suc_eq)
  ultimately show ?case
    by simp
qed

lemma handlePrevious_iterated:
  assumes "i < length imagesData" and "selectedImageIndex s = Some (Fin (real i))"
  shows "selectedImageIndex ((handlePrevious imagesData ^^ k) s)
         = Some (Fin (real (nat ((int i - int k) mod int (length imagesData)))))"
proof (induction k)
  case 0
  from assms show ?case by simp
next
  case (Suc k)
  define n where "n = length imagesData"
  define j where "j = nat ((int i - int k) mod int n)"
  have pos: "0 < n"
    using assms(1) unfolding n_def by linarith
  have j_int: "int j = (int i - int k) mod int n"
    using pos by (simp add: j_def)
  have j_less: "j < n"
    using pos by (simp add: j_def nat_less_iff)
  have "selectedImageIndex (handlePrevious imagesData ((handlePrevious imagesData ^^ k) s))
        = Some (Fin (real ((j + n - 1) mod n)))"
    using pos j_less Suc.IH unfolding n_def j_def by (rule handlePrevious_step)
  moreover have "(j + n - 1) mod n = nat ((int i - int (Suc k)) mod int n)"
  proof -
    have "int ((j + n - 1) mod n) = (int j + int n - 1) mod int n"
      using pos by (simp add: zmod_int of_nat_diff)
    also have "\<dots> = ((int i - int k) mod int n + (int n - 1)) mod int n"
      by (simp add: j_int algebra_simps)
    also have "\<dots> = ((int i - int k) + (int n - 1)) mod int n"
      by (rule mod_add_left_eq)
    also have "\<dots> = (int i - int (Suc k) + int n) mod int n"
      by (simp add: algebra_simps)
    also have "\<dots> = (int i - int (Suc k)) mod int n"
      by (rule mod_add_self2)
    finally show ?thesis
      by simp
  qed
  ultimately show ?case
    by (simp add: n_def)
qed

text \<open>
  C3. On a catalog of length \<open>n > 0\<close> and from a valid index \<open>i\<close>, \<open>k\<close> calls of
  \<^verbatim>\<open>handleNext\<close> leave the index \<open>(i + k) mod n\<close>, and \<open>k\<close> calls of \<^verbatim>\<open>handlePrevious\<close>
  leave \<open>(i - k + k * n) mod n\<close>. Three calls of \<^verbatim>\<open>handleNext\<close> on a catalog of three,
  from index 0, come back to 0.
\<close>

theorem next_previous_wrap_around:
  assumes "length imagesData = n" and "0 < n" and "i < n"
    and "selectedImageIndex s = Some (Fin (real i))"
  shows "selectedImageIndex ((handleNext imagesData ^^ k) s) = Some (Fin (real ((i + k) mod n)))
       \<and> selectedImageIndex ((handlePrevious imagesData ^^ k) s)
           = Some (Fin (real_of_int ((int i - int k + int k * int n) mod int n)))"
proof -
  have i_less: "i < length imagesData"
    using assms by simp
  have "real (nat ((int i - int k) mod int n)) = real_of_int ((int i - int k) mod int n)"
    using assms(2) by simp
  moreover have "(int i - int k + int k * int n) mod int n = (int i - int k) mod int n"
    by simp
  ultimately show ?thesis
    using handleNext_iterated [OF i_less assms(4), of k]
      handlePrevious_iterated [OF i_less assms(4), of k] assms(1)
    by simp
qed

theorem next_previous_wrap_around_witness:
  "selectedImageIndex ((handleNext three_images ^^ 3)
       \<lparr>selectedImageIndex = Some (Fin 0), showPopup = True, popupText = []\<rparr>) = Some (Fin 0)
   \<and> selectedImageIndex ((handlePrevious three_images ^^ 3)
       \<lparr>selectedImageIndex = Some (Fin 0), showPopup = True, popupText = []\<rparr>) = Some (Fin 0)"
proof -
  let ?s = "\<lparr>selectedImageIndex = Some (Fin 0), showPopup = True, popupText = []\<rparr>"
  have h1: "length three_images = 3"
    by (simp add: three_images_def)
  have h2: "(0::nat) < 3" and h3: "(0::nat) < 3"
    by simp_all
  have h4: "selectedImageIndex ?s = Some (Fin (real 0))"
    by simp
  from next_previous_wrap_around [OF h1 h2 h3 h4, of 3] show ?thesis
    by simp
qed

text \<open>The scenario, run on the handlers themselves.\<close>

lemma handleNext_three_times:
  "(handleNext three_images ^^ 3) \<lparr>selectedImageIndex = Some (Fin 0), showPopup = True, popupText = []\<rparr>
     = \<lparr>selectedImageIndex = Some (Fin 0), showPopup = True, popupText = []\<rparr>"
  "handleNext three_images \<lparr>selectedImageIndex = Some (Fin 2), showPopup = True, popupText = []\<rparr>
     = \<lparr>selectedImageIndex = Some (Fin 0), showPopup = True, popupText = []\<rparr>"
  "handlePrevious three_images \<lparr>selectedImageIndex = Some (Fin 0), showPopup = True, popupText = []\<rparr>
     = \<lparr>selectedImageIndex = Some (Fin 2), showPopup = True, popupText = []\<rparr>"
  by (simp_all add: numeral_3_eq_3 handleNext_def handlePrevious_def three_images_def
      js_trunc_def js_sub_def)

lemma findIndex_from_absent:
  "list_all (\<lambda>a. \<not> P a) as \<Longrightarrow> findIndex_from P as k = Fin (- 1)"
  by (induction as arbitrary: k) simp_all

text \<open>
  C4, as the code has it. \<^verbatim>\<open>handleImageClick\<close> does not test the result of
  \<^verbatim>\<open>findIndex\<close>: for an id that no record of the catalog has, it stores the index \<open>-1\<close> and
  sets \<^verbatim>\<open>showPopup\<close>; \<^verbatim>\<open>popupText\<close> keeps its value.
\<close>

theorem handleImageClick_absent_id:
  assumes "ident \<notin> id_img ` set imagesData"
  shows "handleImageClick imagesData ident pth pos s
         = s\<lparr>selectedImageIndex := Some (Fin (- 1)), showPopup := True\<rparr>"
proof -
  have "list_all (\<lambda>img. \<not> id_img img = ident) imagesData"
    using assms by (auto simp: list_all_iff)
  then have "findIndex (\<lambda>img. id_img img = ident) imagesData = Fin (- 1)"
    unfolding findIndex_def by (rule findIndex_from_absent)
  then show ?thesis
    by (simp add: handleImageClick_def)
qed

theorem handleImageClick_absent_id_witness:
  "(4::nat) \<notin> id_img ` set three_images
   \<and> handleImageClick three_images 4 ''d.jpg'' [0, 0, 0]
        \<lparr>selectedImageIndex = Some (Fin 1), showPopup = False, popupText = []\<rparr>
      = \<lparr>selectedImageIndex = Some (Fin (- 1)), showPopup = True, popupText = []\<rparr>"
proof -
  have h: "(4::nat) \<notin> id_img ` set three_images"
    by (simp add: three_images_def)
  from h handleImageClick_absent_id [OF h, of "''d.jpg''" "[0, 0, 0]"
      "\<lparr>selectedImageIndex = Some (Fin 1), showPopup = False, popupText = []\<rparr>"]
  show ?thesis
    by simp
qed

text \<open>
  The claim C4 as it was stated (a click on an absent id changes nothing) fails: from the
  initial state, a click on the id 4, which the catalog of three does not have, leaves
  the index \<open>-1\<close> and the popup shown, and mounting the popup on that index throws.
\<close>

theorem absent_id_click_changes_state:
  "handleImageClick three_images 4 ''d.jpg'' [0, 0, 0] initial_experience
     = \<lparr>selectedImageIndex = Some (Fin (- 1)), showPopup = True, popupText = []\<rparr>
   \<and> handleImageClick three_images 4 ''d.jpg'' [0, 0, 0] initial_experience \<noteq> initial_experience
   \<and> mounted_popup three_images
        (handleImageClick three_images 4 ''d.jpg'' [0, 0, 0] initial_experience) = TypeError"
  by (simp add: handleImageClick_def findIndex_def three_images_def initial_experience_def
      mounted_popup_def array_get_def)

lemma js_rem_zero: "js_rem a (Fin 0) = NaN"
  by (cases a) simp_all

text \<open>
  C5, as the code has it. Neither \<^verbatim>\<open>handleNext\<close> nor \<^verbatim>\<open>handlePrevious\<close> tests the
  length of the catalog. On an empty catalog the remainder by zero is NaN: both handlers
  return (nothing is thrown, nothing loops), store NaN as the index whatever it was, and
  leave \<^verbatim>\<open>showPopup\<close> and \<^verbatim>\<open>popupText\<close> alone.
\<close>

theorem next_previous_empty_catalog:
  assumes "length imagesData = 0"
  shows "handleNext imagesData s = s\<lparr>selectedImageIndex := Some NaN\<rparr>
       \<and> handlePrevious imagesData s = s\<lparr>selectedImageIndex := Some NaN\<rparr>"
  using assms by (simp add: handleNext_def handlePrevious_def js_rem_zero)

theorem next_previous_empty_catalog_witness:
  "length ([] :: nat image_record list) = 0
   \<and> handleNext ([] :: nat image_record list)
        \<lparr>selectedImageIndex = None, showPopup = False, popupText = []\<rparr>
      = \<lparr>selectedImageIndex = Some NaN, showPopup = False, popupText = []\<rparr>
   \<and> handlePrevious ([] :: nat image_record list)
        \<lparr>selectedImageIndex = None, showPopup = False, popupText = []\<rparr>
      = \<lparr>selectedImageIndex = Some NaN, showPopup = False, popupText = []\<rparr>"
proof -
  have h: "length ([] :: nat image_record list) = 0"
    by simp
  from next_previous_empty_catalog [OF h,
      of "\<lparr>selectedImageIndex = None, showPopup = False, popupText = []\<rparr>"]
  show ?thesis
    by simp
qed

text \<open>
  The claim C5 as it was stated (on an empty catalog the two handlers change nothing)
  fails: from the index 0 both handlers leave the index NaN.
\<close>

theorem empty_catalog_step_changes_index:
  "selectedImageIndex (handleNext ([] :: nat image_record list)
       \<lparr>selectedImageIndex = Some (Fin 0), showPopup = True, popupText = []\<rparr>) = Some NaN
   \<and> selectedImageIndex (handlePrevious ([] :: nat image_record list)
       \<lparr>selectedImageIndex = Some (Fin 0), showPopup = True, popupText = []\<rparr>) = Some NaN
   \<and> handleNext ([] :: nat image_record list)
       \<lparr>selectedImageIndex = Some (Fin 0), showPopup = True, popupText = []\<rparr>
      \<noteq> \<lparr>selectedImageIndex = Some (Fin 0), showPopup = True, popupText = []\<rparr>
   \<and> handlePrevious ([] :: nat image_record list)
       \<lparr>selectedImageIndex = Some (Fin 0), showPopup = True, popupText = []\<rparr>
      \<noteq> \<lparr>selectedImageIndex = Some (Fin 0), showPopup = True, popupText = []\<rparr>"
  by (simp add: handleNext_def handlePrevious_def js_sub_def)

text \<open>
  C9. With the popup open, \<^verbatim>\<open>handleClosePopup\<close> clears \<^verbatim>\<open>showPopup\<close> and changes nothing
  else: \<^verbatim>\<open>selectedImageIndex\<close> keeps its value.
\<close>

theorem handleClosePopup_only_hides:
  assumes "showPopup s"
  shows "\<not> showPopup (handleClosePopup s)
       \<and> selectedImageIndex (handleClosePopup s) = selectedImageIndex s
       \<and> popupText (handleClosePopup s) = popupText s
       \<and> handleClosePopup s = s\<lparr>showPopup := False\<rparr>"
  by (simp add: handleClosePopup_def)

theorem handleClosePopup_only_hides_witness:
  "showPopup \<lparr>selectedImageIndex = Some (Fin 2), showPopup = True, popupText = []\<rparr>
   \<and> handleClosePopup \<lparr>selectedImageIndex = Some (Fin 2), showPopup = True, popupText = []\<rparr>
      = \<lparr>selectedImageIndex = Some (Fin 2), showPopup = False, popupText = []\<rparr>"
proof -
  have h: "showPopup \<lparr>selectedImageIndex = Some (Fin 2), showPopup = True, popupText = []\<rparr>"
    by simp
  from h handleClosePopup_only_hides [OF h] show ?thesis
    by simp
qed

section \<open>Properties of the keyboard pan animator\<close>

text \<open>
  With no popup shown, an arrow key arms the animator: from the scene at rest,
  \<^verbatim>\<open>ArrowUp\<close> sets both targets 0.2 along the second column of the camera matrix and starts
  the animation.
\<close>

lemma handleKeyDown_ArrowUp:
  "handleKeyDown False ''ArrowUp'' scene_at_rest
     = scene_at_rest\<lparr>targetCameraPositionRef := Some (Vector3 0 (2 / 10) 10),
                      targetControlsLookAtRef := Some (Vector3 0 (2 / 10) 0),
                      isAnimatingPanRef := True\<rparr>"
  by (simp add: handleKeyDown_def scene_at_rest_def setFromMatrixColumn_def Let_def)

text \<open>
  C7. While the popup is shown, a key press changes nothing of the animator: no target is
  made or moved, and the animation flag keeps its value. This holds for every key, the
  four arrow keys among them.
\<close>

theorem handleKeyDown_ignored_while_popup:
  assumes "showPopup e"
  shows "handleKeyDown (showPopup e) key s = s"
  using assms by (simp add: handleKeyDown_def)

theorem handleKeyDown_ignored_while_popup_witness:
  "showPopup \<lparr>selectedImageIndex = Some (Fin 0), showPopup = True, popupText = []\<rparr>
   \<and> handleKeyDown (showPopup \<lparr>selectedImageIndex = Some (Fin 0), showPopup = True, popupText = []\<rparr>)
        ''ArrowUp'' scene_at_rest = scene_at_rest"
proof -
  have h: "showPopup \<lparr>selectedImageIndex = Some (Fin 0), showPopup = True, popupText = []\<rparr>"
    by simp
  from h handleKeyDown_ignored_while_popup [OF h, of "''ArrowUp''" scene_at_rest]
  show ?thesis
    by simp
qed

lemma funpow_fixed: "f a = a \<Longrightarrow> (f ^^ k) a = a"
  by (induction k) simp_all

lemma useFrame_pan_idle: "\<not> isAnimatingPanRef s \<Longrightarrow> useFrame_pan upd s = s"
  by (simp add: useFrame_pan_def)

lemma useFrame_pan_snap:
  assumes "isAnimatingPanRef s" and "controlsRef s = Some c"
    and "targetCameraPositionRef s = Some tpos" and "targetControlsLookAtRef s = Some tlook"
    and "object (upd (lerp_controls c tpos tlook (1 / 10))) = Some cam"
    and "distanceTo (position_cam cam) tpos < 1 / 100"
    and "distanceTo (target (upd (lerp_controls c tpos tlook (1 / 10)))) tlook < 1 / 100"
  shows "useFrame_pan upd s
         = s\<lparr>controlsRef :=
               Some ((upd (lerp_controls c tpos tlook (1 / 10)))
                       \<lparr>object := Some (cam\<lparr>position_cam := tpos\<rparr>), target := tlook\<rparr>),
             isAnimatingPanRef := False\<rparr>"
  using assms by (simp add: useFrame_pan_def Let_def)

text \<open>
  The frame callback writes neither target ref: the refs are written by \<^verbatim>\<open>handleKeyDown\<close>
  only, which never sets them back to \<^verbatim>\<open>null\<close>.
\<close>

lemma useFrame_pan_keeps_targets:
  "targetCameraPositionRef (useFrame_pan upd s) = targetCameraPositionRef s
   \<and> targetControlsLookAtRef (useFrame_pan upd s) = targetControlsLookAtRef s"
  by (simp add: useFrame_pan_def Let_def split: option.splits)

lemma popup_frame_idle: "\<not> animationFrame p \<Longrightarrow> popup_frame p = p"
  by (simp add: popup_frame_def)

lemma popup_frame_snap:
  assumes "animationFrame p" and "\<bar>1 - (scale p + (1 - scale p) * (15 / 100))\<bar> \<le> 1 / 100"
  shows "popup_frame p
         = p\<lparr>scale := scale p + (1 - scale p) * (15 / 100), popupScale := 1, animationFrame := False\<rparr>"
proof -
  have "\<not> \<bar>scale p + (1 - scale p) * (15 / 100) - 1\<bar> > 1 / 100"
    using assms(2) by (simp only: abs_minus_commute not_less)
  with assms(1) show ?thesis
    by (simp only: popup_frame_def animate_def Let_def if_True if_False) simp
qed

lemma distanceTo_less_iff:
  assumes "0 < r"
  shows "distanceTo v w < r \<longleftrightarrow> distanceToSquared v w < r * r"
proof -
  have "sqrt (r * r) = r"
    using assms by simp
  then have "distanceTo v w < r \<longleftrightarrow> sqrt (distanceToSquared v w) < sqrt (r * r)"
    by (simp only: distanceTo_def)
  then show ?thesis
    by (simp only: real_sqrt_less_iff)
qed

text \<open>
  C6, as the code has it. A frame in which the animator finds both distances below 0.01
  puts the camera and the look-at point on their targets and clears the animation flag;
  the two target refs keep their vectors and are not set back to \<^verbatim>\<open>null\<close>. Every later
  frame leaves the animator's state as it is; so does every frame of an animator that is
  not animating. A frame in which \<^verbatim>\<open>animate\<close> finds the scale within 0.01 of 1 sets
  \<^verbatim>\<open>popupScale\<close> to 1 and requests no further frame, and every later frame leaves the
  popup's state as it is; so does every frame when none is requested.
\<close>

theorem frames_after_convergence:
  "(isAnimatingPanRef s \<and> controlsRef s = Some c
      \<and> targetCameraPositionRef s = Some tpos \<and> targetControlsLookAtRef s = Some tlook
      \<and> object (upd (lerp_controls c tpos tlook (1 / 10))) = Some cam
      \<and> distanceTo (position_cam cam) tpos < 1 / 100
      \<and> distanceTo (target (upd (lerp_controls c tpos tlook (1 / 10)))) tlook < 1 / 100
    \<longrightarrow> \<not> isAnimatingPanRef (useFrame_pan upd s)
        \<and> controlsRef (useFrame_pan upd s)
            = Some ((upd (lerp_controls c tpos tlook (1 / 10)))
                      \<lparr>object := Some (cam\<lparr>position_cam := tpos\<rparr>), target := tlook\<rparr>)
        \<and> targetCameraPositionRef (useFrame_pan upd s) = Some tpos
        \<and> targetControlsLookAtRef (useFrame_pan upd s) = Some tlook
        \<and> (useFrame_pan upd ^^ k) (useFrame_pan upd s) = useFrame_pan upd s)
   \<and> (\<not> isAnimatingPanRef s \<longrightarrow> (useFrame_pan upd ^^ k) s = s)
   \<and> (animationFrame p \<and> \<bar>1 - (scale p + (1 - scale p) * (15 / 100))\<bar> \<le> 1 / 100
    \<longrightarrow> popupScale (popup_frame p) = 1 \<and> \<not> animationFrame (popup_frame p)
        \<and> (popup_frame ^^ k) (popup_frame p) = popup_frame p)
   \<and> (\<not> animationFrame p \<longrightarrow> (popup_frame ^^ k) p = p)"
proof (intro conjI impI)
  assume h: "isAnimatingPanRef s \<and> controlsRef s = Some c
      \<and> targetCameraPositionRef s = Some tpos \<and> targetControlsLookAtRef s = Some tlook
      \<and> object (upd (lerp_controls c tpos tlook (1 / 10))) = Some cam
      \<and> distanceTo (position_cam cam) tpos < 1 / 100
      \<and> distanceTo (target (upd (lerp_controls c tpos tlook (1 / 10)))) tlook < 1 / 100"
  then have snap: "useFrame_pan upd s
         = s\<lparr>controlsRef :=
               Some ((upd (lerp_controls c tpos tlook (1 / 10)))
                       \<lparr>object := Some (cam\<lparr>position_cam := tpos\<rparr>), target := tlook\<rparr>),
             isAnimatingPanRef := False\<rparr>"
    by (intro useFrame_pan_snap) simp_all
  then show idle: "\<not> isAnimatingPanRef (useFrame_pan upd s)"
    by simp
  from snap show "controlsRef (useFrame_pan upd s)
            = Some ((upd (lerp_controls c tpos tlook (1 / 10)))
                      \<lparr>object := Some (cam\<lparr>position_cam := tpos\<rparr>), target := tlook\<rparr>)"
    by simp
  from h snap show "targetCameraPositionRef (useFrame_pan upd s) = Some tpos"
    by simp
  from h snap show "targetControlsLookAtRef (useFrame_pan upd s) = Some tlook"
    by simp
  from idle show "(useFrame_pan upd ^^ k) (useFrame_pan upd s) = useFrame_pan upd s"
    by (intro funpow_fixed useFrame_pan_idle)
next
  assume "\<not> isAnimatingPanRef s"
  then show "(useFrame_pan upd ^^ k) s = s"
    by (intro funpow_fixed useFrame_pan_idle)
next
  assume h: "animationFrame p \<and> \<bar>1 - (scale p + (1 - scale p) * (15 / 100))\<bar> \<le> 1 / 100"
  then have snap: "popup_frame p
         = p\<lparr>scale := scale p + (1 - scale p) * (15 / 100), popupScale := 1, animationFrame := False\<rparr>"
    by (intro popup_frame_snap) simp_all
  then show "popupScale (popup_frame p) = 1"
    by simp
  from snap show idle: "\<not> animationFrame (popup_frame p)"
    by simp
  then show "(popup_frame ^^ k) (popup_frame p) = popup_frame p"
    by (intro funpow_fixed popup_frame_idle)
next
  assume "\<not> animationFrame p"
  then show "(popup_frame ^^ k) p = p"
    by (intro funpow_fixed popup_frame_idle)
qed

theorem frames_after_convergence_witness:
  "\<not> isAnimatingPanRef (useFrame_pan (\<lambda>c. c) scene_near_target)
   \<and> controlsRef (useFrame_pan (\<lambda>c. c) scene_near_target)
       = Some \<lparr>object = Some \<lparr>position_cam = Vector3 (1 / 200) 0 10, matrix = (\<lambda>i. 0)\<rparr>,
                target = Vector3 (1 / 200) 0 0, internal = ()\<rparr>
   \<and> targetCameraPositionRef (useFrame_pan (\<lambda>c. c) scene_near_target)
       = Some (Vector3 (1 / 200) 0 10)
   \<and> targetControlsLookAtRef (useFrame_pan (\<lambda>c. c) scene_near_target)
       = Some (Vector3 (1 / 200) 0 0)
   \<and> (useFrame_pan (\<lambda>c. c) ^^ 5) (useFrame_pan (\<lambda>c. c) scene_near_target)
       = useFrame_pan (\<lambda>c. c) scene_near_target
   \<and> popupScale (popup_frame \<lparr>scale = 99 / 100, popupScale = 99 / 100, animationFrame = True\<rparr>) = 1
   \<and> (popup_frame ^^ 5) (popup_frame \<lparr>scale = 99 / 100, popupScale = 99 / 100, animationFrame = True\<rparr>)
       = popup_frame \<lparr>scale = 99 / 100, popupScale = 99 / 100, animationFrame = True\<rparr>"
proof -
  let ?c = "\<lparr>object = Some \<lparr>position_cam = Vector3 0 0 10, matrix = (\<lambda>i. 0)\<rparr>,
             target = Vector3 0 0 0, internal = ()\<rparr>"
  let ?cam = "\<lparr>position_cam = Vector3 (1 / 2000) 0 10, matrix = (\<lambda>i. 0)\<rparr>"
  let ?p = "\<lparr>scale = 99 / 100, popupScale = 99 / 100, animationFrame = True\<rparr>"
  have lerped: "lerp_controls ?c (Vector3 (1 / 200) 0 10) (Vector3 (1 / 200) 0 0) (1 / 10)
        = \<lparr>object = Some ?cam, target = Vector3 (1 / 2000) 0 0, internal = ()\<rparr>"
    by (simp add: lerp_controls_def)
  have pos: "(0::real) < 1 / 100"
    by simp
  have near: "distanceTo (Vector3 (1 / 2000) 0 10) (Vector3 (1 / 200) 0 10) < 1 / 100"
    "distanceTo (Vector3 (1 / 2000) 0 0) (Vector3 (1 / 200) 0 0) < 1 / 100"
    unfolding distanceTo_less_iff [OF pos] by simp_all
  have h1: "isAnimatingPanRef scene_near_target \<and> controlsRef scene_near_target = Some ?c
      \<and> targetCameraPositionRef scene_near_target = Some (Vector3 (1 / 200) 0 10)
      \<and> targetControlsLookAtRef scene_near_target = Some (Vector3 (1 / 200) 0 0)
      \<and> object ((\<lambda>c. c) (lerp_controls ?c (Vector3 (1 / 200) 0 10) (Vector3 (1 / 200) 0 0) (1 / 10)))
          = Some ?cam
      \<and> distanceTo (position_cam ?cam) (Vector3 (1 / 200) 0 10) < 1 / 100
      \<and> distanceTo (target ((\<lambda>c. c)
            (lerp_controls ?c (Vector3 (1 / 200) 0 10) (Vector3 (1 / 200) 0 0) (1 / 10))))
          (Vector3 (1 / 200) 0 0) < 1 / 100"
    using near by (simp add: scene_near_target_def lerped)
  have h2: "animationFrame ?p \<and> \<bar>1 - (scale ?p + (1 - scale ?p) * (15 / 100))\<bar> \<le> 1 / 100"
    by simp
  from h1 h2 lerped
    frames_after_convergence [where s = scene_near_target and c = ?c
      and tpos = "Vector3 (1 / 200) 0 10" and tlook = "Vector3 (1 / 200) 0 0"
      and upd = "\<lambda>c. c" and cam = ?cam and k = 5 and p = ?p]
  show ?thesis
    by simp
qed

text \<open>
  The claim C6 as it was stated (a converged animator is idle with no pending target)
  fails in its second half: the frame that finds the scene converged clears the flag, and
  both target refs still hold their vectors after it and after every later frame.
\<close>

theorem converged_animator_keeps_targets:
  "\<not> isAnimatingPanRef (useFrame_pan (\<lambda>c. c) scene_near_target)
   \<and> targetCameraPositionRef (useFrame_pan (\<lambda>c. c) scene_near_target) \<noteq> None
   \<and> targetControlsLookAtRef (useFrame_pan (\<lambda>c. c) scene_near_target) \<noteq> None
   \<and> targetCameraPositionRef ((useFrame_pan (\<lambda>c. c) ^^ 3) scene_near_target)
       = Some (Vector3 (1 / 200) 0 10)
   \<and> targetControlsLookAtRef ((useFrame_pan (\<lambda>c. c) ^^ 3) scene_near_target)
       = Some (Vector3 (1 / 200) 0 0)"
proof -
  have pos: "(0::real) < 1 / 100"
    by simp
  have near: "distanceTo (Vector3 (1 / 2000) 0 10) (Vector3 (1 / 200) 0 10) < 1 / 100"
    "distanceTo (Vector3 (1 / 2000) 0 0) (Vector3 (1 / 200) 0 0) < 1 / 100"
    unfolding distanceTo_less_iff [OF pos] by simp_all
  have step: "useFrame_pan (\<lambda>c. c) scene_near_target
        = scene_near_target
            \<lparr>controlsRef := Some \<lparr>object = Some \<lparr>position_cam = Vector3 (1 / 200) 0 10,
                                                   matrix = (\<lambda>i. 0)\<rparr>,
                                   target = Vector3 (1 / 200) 0 0, internal = ()\<rparr>,
              isAnimatingPanRef := False\<rparr>"
    using near
    by (simp add: useFrame_pan_def scene_near_target_def lerp_controls_def Let_def)
  have idle: "\<not> isAnimatingPanRef (useFrame_pan (\<lambda>c. c) scene_near_target)"
    by (simp only: step) simp
  have tpos: "targetCameraPositionRef (useFrame_pan (\<lambda>c. c) scene_near_target)
        = Some (Vector3 (1 / 200) 0 10)"
    by (simp only: step) (simp add: scene_near_target_def)
  have tlook: "targetControlsLookAtRef (useFrame_pan (\<lambda>c. c) scene_near_target)
        = Some (Vector3 (1 / 200) 0 0)"
    by (simp only: step) (simp add: scene_near_target_def)
  have "(useFrame_pan (\<lambda>c. c) ^^ 3) scene_near_target
        = (useFrame_pan (\<lambda>c. c) ^^ 2) (useFrame_pan (\<lambda>c. c) scene_near_target)"
    by (simp only: numeral_3_eq_3 numeral_2_eq_2 funpow.simps funpow_swap1 o_apply id_apply)
  also have "\<dots> = useFrame_pan (\<lambda>c. c) scene_near_target"
    using idle by (intro funpow_fixed useFrame_pan_idle)
  finally have three: "(useFrame_pan (\<lambda>c. c) ^^ 3) scene_near_target
        = useFrame_pan (\<lambda>c. c) scene_near_target" .
  from idle tpos tlook show ?thesis
    by (simp only: three) simp
qed

section \<open>Properties of the popup scale-in animation\<close>

lemma animate_scale: "scale (animate p) = scale p + (1 - scale p) * (15 / 100)"
  by (simp add: animate_def Let_def)

lemma animate_popupScale:
  "popupScale (animate p) = (if animationFrame (animate p) then scale (animate p) else 1)"
  by (simp add: animate_def Let_def)

lemma animate_scale_bounds:
  assumes "scale p \<le> 1"
  shows "scale p \<le> scale (animate p)" and "scale (animate p) \<le> 1"
  using assms unfolding animate_scale by argo+

lemma animate_inv: "scale p \<le> 1 \<Longrightarrow> popup_inv (animate p)"
  unfolding popup_inv_def using animate_scale_bounds(2) animate_popupScale by blast

lemma popup_inv_popupScale: "popup_inv p \<Longrightarrow> scale p \<le> popupScale p \<and> popupScale p \<le> 1"
  by (simp add: popup_inv_def)

lemma popup_frames_above:
  assumes "popup_inv p" and "q \<in> set (popup_frames p)"
  shows "popup_inv q \<and> scale p \<le> scale q \<and> popupScale p \<le> popupScale q"
  using assms
proof (induction p rule: popup_frames.induct)
  case (1 p)
  from "1.prems"(2) have pending: "animationFrame p"
    by (subst (asm) popup_frames.simps) (simp split: if_splits)
  then have frame: "popup_frame p = animate p"
    by (simp add: popup_frame_def)
  from "1.prems"(1) have le1: "scale p \<le> 1" and ps: "popupScale p = scale p"
    using pending by (simp_all add: popup_inv_def)
  have inv': "popup_inv (popup_frame p)"
    using le1 frame animate_inv by simp
  have up: "scale p \<le> scale (popup_frame p)"
    using le1 frame animate_scale_bounds(1) by simp
  from "1.prems"(2) pending
  have "q = popup_frame p \<or> q \<in> set (popup_frames (popup_frame p))"
    by (subst (asm) popup_frames.simps) simp
  then show ?case
  proof
    assume "q = popup_frame p"
    with inv' up ps popup_inv_popupScale [OF inv'] show ?thesis
      by simp
  next
    assume "q \<in> set (popup_frames (popup_frame p))"
    with "1.IH" [OF pending inv']
    have "popup_inv q \<and> scale (popup_frame p) \<le> scale q
          \<and> popupScale (popup_frame p) \<le> popupScale q"
      by simp
    with up ps popup_inv_popupScale [OF inv'] show ?thesis
      by simp
  qed
qed

lemma popup_frames_sorted:
  assumes "popup_inv p"
  shows "sorted (map scale (popup_frames p)) \<and> sorted (map popupScale (popup_frames p))"
  using assms
proof (induction p rule: popup_frames.induct)
  case (1 p)
  show ?case
  proof (cases "animationFrame p")
    case False
    then show ?thesis
      by (subst popup_frames.simps, subst popup_frames.simps) simp
  next
    case True
    then have frame: "popup_frame p = animate p"
      by (simp add: popup_frame_def)
    from "1.prems" have "scale p \<le> 1"
      by (simp add: popup_inv_def)
    then have inv': "popup_inv (popup_frame p)"
      using frame animate_inv by simp
    have unfold: "popup_frames p = popup_frame p # popup_frames (popup_frame p)"
      using True by (subst popup_frames.simps) simp
    have "\<forall>q \<in> set (popup_frames (popup_frame p)).
            scale (popup_frame p) \<le> scale q \<and> popupScale (popup_frame p) \<le> popupScale q"
      using popup_frames_above [OF inv'] by blast
    with "1.IH" [OF True inv'] show ?thesis
      by (simp add: unfold)
  qed
qed

lemma popup_frames_last:
  assumes "popup_inv p" and "animationFrame p"
  shows "popupScale (last (popup_frames p)) = 1 \<and> \<not> animationFrame (last (popup_frames p))"
  using assms
proof (induction p rule: popup_frames.induct)
  case (1 p)
  from "1.prems" have frame: "popup_frame p = animate p"
    by (simp add: popup_frame_def)
  from "1.prems" have "scale p \<le> 1"
    by (simp add: popup_inv_def)
  then have inv': "popup_inv (popup_frame p)"
    using frame animate_inv by simp
  have unfold: "popup_frames p = popup_frame p # popup_frames (popup_frame p)"
    using "1.prems"(2) by (subst popup_frames.simps) simp
  show ?case
  proof (cases "animationFrame (popup_frame p)")
    case True
    then have "popup_frames (popup_frame p) \<noteq> []"
      by (subst popup_frames.simps) simp
    with "1.IH" [OF "1.prems"(2) inv' True] show ?thesis
      by (simp add: unfold)
  next
    case False
    then have "popup_frames (popup_frame p) = []"
      by (subst popup_frames.simps) simp
    with False inv' show ?thesis
      by (simp add: unfold popup_inv_def)
  qed
qed

lemma popup_frames_steps:
  "successively (\<lambda>q q'. scale q' = scale q + (1 - scale q) * (15 / 100)) (p # popup_frames p)"
proof (induction p rule: popup_frames.induct)
  case (1 p)
  show ?case
  proof (cases "animationFrame p")
    case False
    then show ?thesis
      by (subst popup_frames.simps) simp
  next
    case True
    then have "popup_frames p = popup_frame p # popup_frames (popup_frame p)"
      by (subst popup_frames.simps) simp
    moreover have "scale (popup_frame p) = scale p + (1 - scale p) * (15 / 100)"
      using True by (simp add: popup_frame_def animate_scale)
    ultimately show ?thesis
      using "1.IH" [OF True] by simp
  qed
qed

lemma popup_effect_mount:
  "popup_effect popup_mount = \<lparr>scale = 149 / 200, popupScale = 149 / 200, animationFrame = True\<rparr>"
  by (simp add: popup_effect_def popup_mount_def animate_def Let_def)

text \<open>
  C10. Throughout the scale-in animation both the local \<^verbatim>\<open>scale\<close> and the state
  \<^verbatim>\<open>popupScale\<close> stay within 0.7 and 1: the run starts at 0.7, every call of \<^verbatim>\<open>animate\<close>
  replaces \<^verbatim>\<open>scale\<close> by \<^verbatim>\<open>scale + (1 - scale) * 0.15\<close>, the values never go down and never
  pass 1, and the run ends (it is a finite list) with \<^verbatim>\<open>popupScale\<close> exactly 1 and no
  frame requested.
\<close>

theorem popup_scale_within_bounds:
  "list_all (\<lambda>q. 7 / 10 \<le> scale q \<and> scale q \<le> 1 \<and> 7 / 10 \<le> popupScale q \<and> popupScale q \<le> 1)
     popup_run
   \<and> sorted (map scale popup_run)
   \<and> sorted (map popupScale popup_run)
   \<and> successively (\<lambda>q q'. scale q' = scale q + (1 - scale q) * (15 / 100)) popup_run
   \<and> scale (hd popup_run) = 7 / 10
   \<and> popupScale (hd popup_run) = 7 / 10
   \<and> popupScale (last popup_run) = 1
   \<and> \<not> animationFrame (last popup_run)"
proof -
  define e where "e = popup_effect popup_mount"
  define fs where "fs = popup_frames e"
  have run: "popup_run = popup_mount # e # fs"
    by (simp add: popup_run_def e_def fs_def)
  have e: "scale e = 149 / 200" "popupScale e = 149 / 200" "animationFrame e"
    by (simp_all add: e_def popup_effect_mount)
  have m: "scale popup_mount = 7 / 10" "popupScale popup_mount = 7 / 10"
    by (simp_all add: popup_mount_def)
  have inv: "popup_inv e"
    by (simp add: popup_inv_def e)
  have above: "popup_inv q \<and> 149 / 200 \<le> scale q \<and> 149 / 200 \<le> popupScale q"
    if "q \<in> set fs" for q
    using popup_frames_above [OF inv, of q] that by (simp add: fs_def e)
  have bounds: "7 / 10 \<le> scale q \<and> scale q \<le> 1 \<and> 7 / 10 \<le> popupScale q \<and> popupScale q \<le> 1"
    if "q \<in> set fs" for q
    using above [OF that] by (simp add: popup_inv_def split: if_splits)
  have c1: "list_all (\<lambda>q. 7 / 10 \<le> scale q \<and> scale q \<le> 1 \<and> 7 / 10 \<le> popupScale q \<and> popupScale q \<le> 1)
     popup_run"
    using bounds by (simp add: run list_all_iff e m)
  have tail_sorted: "sorted (map scale fs)" "sorted (map popupScale fs)"
    using popup_frames_sorted [OF inv] by (simp_all add: fs_def)
  have c2: "sorted (map scale popup_run)"
    using tail_sorted(1) above bounds by (simp add: run e m)
  have c3: "sorted (map popupScale popup_run)"
    using tail_sorted(2) above bounds by (simp add: run e m)
  have "successively (\<lambda>q q'. scale q' = scale q + (1 - scale q) * (15 / 100)) (e # fs)"
    unfolding fs_def by (rule popup_frames_steps)
  then have c4: "successively (\<lambda>q q'. scale q' = scale q + (1 - scale q) * (15 / 100)) popup_run"
    by (simp add: run e m)
  have c5: "scale (hd popup_run) = 7 / 10" "popupScale (hd popup_run) = 7 / 10"
    by (simp_all add: run m)
  have "fs \<noteq> []"
    unfolding fs_def using e(3) by (subst popup_frames.simps) simp
  then have "last popup_run = last fs"
    by (simp add: run)
  then have c6: "popupScale (last popup_run) = 1" "\<not> animationFrame (last popup_run)"
    using popup_frames_last [OF inv e(3)] by (simp_all add: fs_def)
  from c1 c2 c3 c4 c5 c6 show ?thesis
    by (intro conjI)
qed

text \<open>The run from the mounted popup takes the effect's call and twenty frames.\<close>

lemma popup_run_length: "length popup_run = 22"
proof -
  have "length (popup_frames \<lparr>scale = 149 / 200, popupScale = 149 / 200, animationFrame = True\<rparr>) = 20"
    by (simp add: popup_frames.simps popup_frame_def animate_def Let_def)
  then show ?thesis
    by (simp add: popup_run_def popup_effect_mount)
qed

end
